theory Spec2Isabelle
  imports Main "HOL-Library.Word"
begin

section \<open>stdgpu::vector: the fixed-capacity concurrent vector\<close>

text \<open>
  A shallow embedding of \<^verbatim>\<open>src/stdgpu/impl/vector_detail.cuh\<close>. One call of a member
  function is modelled as a function from the state of the vector before the call to the
  result and the state after it, run without interference from other threads. The text
  written by \<^verbatim>\<open>printf\<close> is not part of the state and is left out.

  The counter \<^verbatim>\<open>_size\<close> is an \<^verbatim>\<open>atomic<int>\<close> and is a 32-bit word, read as two's
  complement. Values of type \<^verbatim>\<open>index_t\<close> (a signed integer type whose declaration is not
  in this file) are mathematical integers; the one narrowing conversion of the file,
  \<^verbatim>\<open>static_cast<int>(_capacity)\<close> in \<^verbatim>\<open>size_valid\<close>, is written out.
\<close>

subsection \<open>The collaborators: atomic counter, mutex array, bitset, device array\<close>

type_synonym atomic_int = "32 word"

text \<open>
  Modelled from the spec: the class \<^verbatim>\<open>atomic<int>\<close> is not among the sources. The spec's
  AtomicCounter is a single integer cell with load, store and fetch-and-add style
  increment and decrement; a freshly created counter holds 0 (capacity-many pushes succeed
  on a fresh vector). The source applies the C++ operators to it: the postfix \<^verbatim>\<open>_size++\<close>
  yields the value held before the increment, the prefix \<^verbatim>\<open>--_size\<close> yields the value held
  after the decrement. Each function returns the value of the expression and the cell.
\<close>

definition atomic_createDeviceObject :: atomic_int where
  "atomic_createDeviceObject = 0"

definition atomic_load :: "atomic_int \<Rightarrow> 32 word" where
  "atomic_load c = c"

definition atomic_store :: "32 word \<Rightarrow> atomic_int \<Rightarrow> atomic_int" where
  "atomic_store x c = x"

definition atomic_post_increment :: "atomic_int \<Rightarrow> 32 word \<times> atomic_int" where
  "atomic_post_increment c = (c, c + 1)"

definition atomic_pre_decrement :: "atomic_int \<Rightarrow> 32 word \<times> atomic_int" where
  "atomic_pre_decrement c = (c - 1, c - 1)"

text \<open>
  Modelled from the spec: the class \<^verbatim>\<open>mutex_array\<close> is not among the sources. The spec's
  SlotLockArray has one lock cell per index, free or held (\<open>True\<close> is held);
  \<^verbatim>\<open>try_lock\<close> acquires a free lock and reports success, and fails without blocking on a
  held one; \<^verbatim>\<open>unlock\<close> releases; \<^verbatim>\<open>valid\<close> reports that no lock is held. A freshly created
  array has every lock free.
\<close>

type_synonym mutex_array = "bool list"

definition mutex_array_createDeviceObject :: "int \<Rightarrow> mutex_array" where
  "mutex_array_createDeviceObject n = replicate (nat n) False"

definition try_lock :: "mutex_array \<Rightarrow> nat \<Rightarrow> bool \<times> mutex_array" where
  "try_lock ls i = (if ls ! i then (False, ls) else (True, ls[i := True]))"

definition unlock :: "mutex_array \<Rightarrow> nat \<Rightarrow> mutex_array" where
  "unlock ls i = ls[i := False]"

definition mutex_array_valid :: "mutex_array \<Rightarrow> bool" where
  "mutex_array_valid ls = list_all (\<lambda>held. \<not> held) ls"

text \<open>
  Modelled from the spec: the class \<^verbatim>\<open>bitset\<close> is not among the sources. The spec's
  OccupancyBitset has one bit per index; \<^verbatim>\<open>set(i)\<close> and \<^verbatim>\<open>reset(i)\<close> write the bit and
  return its previous value, \<^verbatim>\<open>operator[]\<close> reads it, \<^verbatim>\<open>reset()\<close> clears every bit and
  \<^verbatim>\<open>count()\<close> is the number of set bits. A freshly created bitset has every bit false.
\<close>

type_synonym bitset = "bool list"

definition bitset_createDeviceObject :: "int \<Rightarrow> bitset" where
  "bitset_createDeviceObject n = replicate (nat n) False"

definition bitset_set :: "bitset \<Rightarrow> nat \<Rightarrow> bool \<times> bitset" where
  "bitset_set bs i = (bs ! i, bs[i := True])"

definition bitset_reset :: "bitset \<Rightarrow> nat \<Rightarrow> bool \<times> bitset" where
  "bitset_reset bs i = (bs ! i, bs[i := False])"

definition bitset_get :: "bitset \<Rightarrow> nat \<Rightarrow> bool" where
  "bitset_get bs i = bs ! i"

definition bitset_reset_all :: "bitset \<Rightarrow> bitset" where
  "bitset_reset_all bs = replicate (length bs) False"

definition bitset_count :: "bitset \<Rightarrow> int" where
  "bitset_count bs = int (length (filter (\<lambda>b. b) bs))"

text \<open>
  Modelled from the spec: \<^verbatim>\<open>createDeviceArray<T>(n, value)\<close> belongs to the memory backend,
  which is not among the sources; it allocates an array of \<open>n\<close> elements, each equal to
  \<open>value\<close>. \<^verbatim>\<open>thrust::fill(first, first + n, value)\<close> overwrites the first \<open>n\<close> elements;
  \<^verbatim>\<open>clear\<close> calls it with \<open>n = size()\<close>, which lies within an allocated array.
\<close>

definition createDeviceArray :: "int \<Rightarrow> 'a \<Rightarrow> 'a list" where
  "createDeviceArray n x = replicate (nat n) x"

definition fill_prefix :: "'a list \<Rightarrow> int \<Rightarrow> 'a \<Rightarrow> 'a list" where
  "fill_prefix xs n x = replicate (min (nat n) (length xs)) x @ drop (nat n) xs"

subsection \<open>The vector and its read-only members\<close>

text \<open>
  The members of \<^verbatim>\<open>vector<T>\<close>: \<^verbatim>\<open>_data\<close>, \<^verbatim>\<open>_locks\<close>, \<^verbatim>\<open>_occupied\<close>, \<^verbatim>\<open>_size\<close> and
  \<^verbatim>\<open>_capacity\<close>. The value-initialised element \<^verbatim>\<open>T()\<close> is passed to the functions that
  use it as the parameter \<open>T0\<close>.
\<close>

record 'a vector =
  v_data :: "'a list"
  v_locks :: mutex_array
  v_occupied :: bitset
  v_size :: atomic_int
  v_capacity :: int

definition capacity :: "'a vector \<Rightarrow> int" where
  "capacity v = v_capacity v"

definition max_size :: "'a vector \<Rightarrow> int" where
  "max_size v = capacity v"

definition size_vec :: "'a vector \<Rightarrow> int" where
  "size_vec v =
     (let current_size = sint (atomic_load (v_size v)) in
      if current_size < 0 then 0
      else if current_size > v_capacity v then v_capacity v
      else current_size)"

definition empty_vec :: "'a vector \<Rightarrow> bool" where
  "empty_vec v = (size_vec v = 0)"

definition full :: "'a vector \<Rightarrow> bool" where
  "full v = (size_vec v = max_size v)"

text \<open>
  \<^verbatim>\<open>occupied(n)\<close> expects \<open>0 \<le> n < capacity()\<close>; both callers test the position against
  these bounds before the call.
\<close>

definition occupied :: "'a vector \<Rightarrow> int \<Rightarrow> bool" where
  "occupied v n = bitset_get (v_occupied v) (nat n)"

definition occupied_count_valid :: "'a vector \<Rightarrow> bool" where
  "occupied_count_valid v =
     (let size_count = size_vec v; size_sum = bitset_count (v_occupied v)
      in size_count = size_sum)"

definition size_valid :: "'a vector \<Rightarrow> bool" where
  "size_valid v =
     (let current_size = atomic_load (v_size v)
      in 0 \<le>s current_size \<and> current_size \<le>s (word_of_int (v_capacity v) :: 32 word))"

definition valid :: "'a vector \<Rightarrow> bool" where
  "valid v =
     (if capacity v = 0 then True
      else size_valid v \<and> occupied_count_valid v \<and> mutex_array_valid (v_locks v))"

subsection \<open>Creation\<close>

text \<open>
  \<^verbatim>\<open>createDeviceObject\<close> expects \<open>size > 0\<close>; a call that violates the contract has no
  result.
\<close>

definition createDeviceObject :: "'a \<Rightarrow> int \<Rightarrow> 'a vector option" where
  "createDeviceObject T0 size' =
     (if \<not> size' > 0 then None
      else Some \<lparr> v_data = createDeviceArray size' T0,
                  v_locks = mutex_array_createDeviceObject size',
                  v_occupied = bitset_createDeviceObject size',
                  v_size = atomic_createDeviceObject,
                  v_capacity = size' \<rparr>)"

subsection \<open>push_back and pop_back\<close>

text \<open>
  The critical section of \<^verbatim>\<open>push_back\<close>, entered with the lock of the slot held: the
  result is the new value of \<^verbatim>\<open>pushed\<close> and the state.
\<close>

definition push_back_critical :: "'a \<Rightarrow> int \<Rightarrow> bool \<Rightarrow> 'a vector \<Rightarrow> bool \<times> 'a vector" where
  "push_back_critical element push_position pushed v =
     (if \<not> occupied v push_position then
        let v1 = v\<lparr>v_data := (v_data v)[nat push_position := element]\<rparr>;
            (was_occupied, bs) = bitset_set (v_occupied v1) (nat push_position)
        in (True, v1\<lparr>v_occupied := bs\<rparr>)
      else (pushed, v))"

text \<open>
  The spin loop \<^verbatim>\<open>while (!pushed)\<close>. It may run forever (a lock that stays held, a slot
  that stays occupied), so it is a partial function: \<open>None\<close> is a call that never returns.
\<close>

partial_function (option) push_back_loop ::
    "'a \<Rightarrow> int \<Rightarrow> bool \<Rightarrow> 'a vector \<Rightarrow> (bool \<times> 'a vector) option" where
  "push_back_loop element push_position pushed v =
     (if \<not> pushed then
        let (locked, ls) = try_lock (v_locks v) (nat push_position) in
        if locked then
          let (pushed', v') = push_back_critical element push_position pushed (v\<lparr>v_locks := ls\<rparr>)
          in push_back_loop element push_position pushed'
               (v'\<lparr>v_locks := unlock (v_locks v') (nat push_position)\<rparr>)
        else push_back_loop element push_position pushed v
      else Some (pushed, v))"

text \<open>
  \<^verbatim>\<open>int push_position = _size++;\<close> and the rest of \<^verbatim>\<open>push_back\<close> after the preemptive
  check (lines 133 to 167).
\<close>

definition push_position :: "'a vector \<Rightarrow> 32 word" where
  "push_position v = fst (atomic_post_increment (v_size v))"

definition push_back_reserved :: "'a \<Rightarrow> 'a vector \<Rightarrow> (bool \<times> 'a vector) option" where
  "push_back_reserved element v =
     (let (push_position, c) = atomic_post_increment (v_size v);
          v1 = v\<lparr>v_size := c\<rparr>
      in if 0 \<le> sint push_position \<and> sint push_position < v_capacity v1
         then push_back_loop element (sint push_position) False v1
         else Some (False, v1))"

definition push_back :: "'a \<Rightarrow> 'a vector \<Rightarrow> (bool \<times> 'a vector) option" where
  "push_back element v =
     (if full v then Some (False, v)
      else push_back_reserved element v)"

text \<open>
  The critical section of \<^verbatim>\<open>pop_back\<close>, entered with the lock of the slot held.
\<close>

definition pop_back_critical ::
    "'a \<Rightarrow> int \<Rightarrow> 'a \<times> bool \<Rightarrow> 'a vector \<Rightarrow> ('a \<times> bool) \<times> 'a vector" where
  "pop_back_critical T0 pop_position popped v =
     (if occupied v pop_position then
        let (was_occupied, bs) = bitset_reset (v_occupied v) (nat pop_position);
            v1 = v\<lparr>v_occupied := bs\<rparr>;
            element = v_data v1 ! nat pop_position;
            v2 = v1\<lparr>v_data := (v_data v1)[nat pop_position := T0]\<rparr>
        in ((element, True), v2)
      else (popped, v))"

partial_function (option) pop_back_loop ::
    "'a \<Rightarrow> int \<Rightarrow> 'a \<times> bool \<Rightarrow> 'a vector \<Rightarrow> (('a \<times> bool) \<times> 'a vector) option" where
  "pop_back_loop T0 pop_position popped v =
     (if \<not> snd popped then
        let (locked, ls) = try_lock (v_locks v) (nat pop_position) in
        if locked then
          let (popped', v') = pop_back_critical T0 pop_position popped (v\<lparr>v_locks := ls\<rparr>)
          in pop_back_loop T0 pop_position popped'
               (v'\<lparr>v_locks := unlock (v_locks v') (nat pop_position)\<rparr>)
        else pop_back_loop T0 pop_position popped v
      else Some (popped, v))"

text \<open>
  \<^verbatim>\<open>int pop_position = --_size;\<close> and the rest of \<^verbatim>\<open>pop_back\<close> after the preemptive
  check (lines 184 to 219).
\<close>

definition pop_position :: "'a vector \<Rightarrow> 32 word" where
  "pop_position v = fst (atomic_pre_decrement (v_size v))"

definition pop_back_reserved :: "'a \<Rightarrow> 'a vector \<Rightarrow> (('a \<times> bool) \<times> 'a vector) option" where
  "pop_back_reserved T0 v =
     (let (pop_position, c) = atomic_pre_decrement (v_size v);
          v1 = v\<lparr>v_size := c\<rparr>
      in if 0 \<le> sint pop_position \<and> sint pop_position < v_capacity v1
         then pop_back_loop T0 (sint pop_position) (T0, False) v1
         else Some ((T0, False), v1))"

definition pop_back :: "'a \<Rightarrow> 'a vector \<Rightarrow> (('a \<times> bool) \<times> 'a vector) option" where
  "pop_back T0 v =
     (if empty_vec v then Some ((T0, False), v)
      else pop_back_reserved T0 v)"

subsection \<open>clear\<close>

definition clear :: "'a \<Rightarrow> 'a vector \<Rightarrow> 'a vector" where
  "clear T0 v =
     (if empty_vec v then v
      else
        let current_size = size_vec v;
            v1 = v\<lparr>v_data := fill_prefix (v_data v) current_size T0\<rparr>;
            v2 = v1\<lparr>v_occupied := bitset_reset_all (v_occupied v1)\<rparr>
        in v2\<lparr>v_size := atomic_store 0 (v_size v2)\<rparr>)"

subsection \<open>States of the vector\<close>

text \<open>
  An allocated vector: the capacity is a non-negative \<^verbatim>\<open>int\<close>, and the three arrays have
  one element per slot, as \<^verbatim>\<open>createDeviceObject\<close> allocates them.
\<close>

definition allocated :: "'a vector \<Rightarrow> bool" where
  "allocated v =
     (0 \<le> v_capacity v \<and> v_capacity v \<le> 2147483647 \<and>
      length (v_data v) = nat (v_capacity v) \<and>
      length (v_locks v) = nat (v_capacity v) \<and>
      length (v_occupied v) = nat (v_capacity v))"

text \<open>
  A quiescent vector: no \<^verbatim>\<open>push_back\<close> or \<^verbatim>\<open>pop_back\<close> is in flight. No lock is held
  and every reserved position has been served, so the occupied slots are exactly the
  slots below the counter.
\<close>

definition quiescent :: "'a vector \<Rightarrow> bool" where
  "quiescent v =
     (allocated v \<and> mutex_array_valid (v_locks v) \<and>
      v_occupied v = map (\<lambda>i. int i < sint (v_size v)) [0..<nat (v_capacity v)])"

text \<open>Vectors of \<^verbatim>\<open>int\<close> with capacity 2, used as concrete inputs; \<^verbatim>\<open>int()\<close> is 0.\<close>

definition one_of_two :: "int vector" where
  "one_of_two = \<lparr> v_data = [5, 0], v_locks = [False, False], v_occupied = [True, False],
                  v_size = 1, v_capacity = 2 \<rparr>"

definition two_of_two :: "int vector" where
  "two_of_two = \<lparr> v_data = [5, 6], v_locks = [False, False], v_occupied = [True, True],
                  v_size = 2, v_capacity = 2 \<rparr>"

definition none_of_two :: "int vector" where
  "none_of_two = \<lparr> v_data = [0, 0], v_locks = [False, False], v_occupied = [False, False],
                   v_size = 0, v_capacity = 2 \<rparr>"

text \<open>
  The counter one below zero: what two racing calls of \<^verbatim>\<open>pop_back\<close> on a vector with one
  element leave behind (both pass the check, one gets position 0, the other position -1).
\<close>

definition underflowed :: "int vector" where
  "underflowed = \<lparr> v_data = [0, 0], v_locks = [False, False], v_occupied = [False, False],
                   v_size = - 1, v_capacity = 2 \<rparr>"

section \<open>Properties\<close>

subsection \<open>Conversions between the counter and index values\<close>

lemma sint_32_of_int: "- 2147483648 \<le> c \<Longrightarrow> c < 2147483648 \<Longrightarrow> sint (word_of_int c :: 32 word) = c"
  by (simp add: sint_sbintrunc' signed_take_bit_int_eq_self)

lemma sint_32_succ: "sint (c :: 32 word) < 2147483647 \<Longrightarrow> sint (c + 1) = sint c + 1"
  using sint_ge [of c]
  by (simp add: sint_word_ariths signed_take_bit_int_eq_self)

lemma sint_32_pred: "- 2147483648 < sint (c :: 32 word) \<Longrightarrow> sint (c - 1) = sint c - 1"
  using sint_lt [of c]
  by (simp add: sint_word_ariths signed_take_bit_int_eq_self)

subsection \<open>The spin loops, run without interference\<close>

text \<open>
  With no other thread to release a lock or to change a slot, one pass through a loop
  either finishes the operation or leaves the state as it was; in the second case the
  loop never returns.
\<close>

lemma list_update_False_id: "\<not> xs ! i \<Longrightarrow> xs[i := False] = xs"
  by (metis list_update_id)

lemma push_back_loop_pushed: "push_back_loop e p True v = Some (True, v)"
  by (subst push_back_loop.simps) simp

lemma push_back_loop_free:
  assumes "\<not> v_locks v ! nat p" and "\<not> occupied v p"
  shows "push_back_loop e p False v =
           Some (True, v\<lparr>v_data := (v_data v)[nat p := e],
                         v_occupied := (v_occupied v)[nat p := True]\<rparr>)"
  using assms
  by (subst push_back_loop.simps)
     (simp add: try_lock_def push_back_critical_def occupied_def bitset_get_def
        bitset_set_def unlock_def push_back_loop_pushed list_update_False_id)

lemma push_back_loop_returns:
  assumes "push_back_loop e p b v = Some r"
  shows "b \<or> (\<not> v_locks v ! nat p \<and> \<not> occupied v p)"
  by (rule push_back_loop.raw_induct
        [where P = "\<lambda>e p b v r. b \<or> (\<not> v_locks v ! nat p \<and> \<not> occupied v p)", OF _ assms])
     (fastforce simp add: Let_def try_lock_def push_back_critical_def occupied_def bitset_get_def
        split: if_splits prod.splits)

lemma push_back_loop_spins:
  "v_locks v ! nat p \<or> occupied v p \<Longrightarrow> push_back_loop e p False v = None"
  using push_back_loop_returns [of e p False v] by (cases "push_back_loop e p False v") auto

lemma pop_back_loop_popped: "pop_back_loop T0 p (x, True) v = Some ((x, True), v)"
  by (subst pop_back_loop.simps) simp

lemma pop_back_loop_free:
  assumes "\<not> v_locks v ! nat p" and "occupied v p"
  shows "pop_back_loop T0 p (x, False) v =
           Some ((v_data v ! nat p, True),
                 v\<lparr>v_occupied := (v_occupied v)[nat p := False],
                   v_data := (v_data v)[nat p := T0]\<rparr>)"
  using assms
  by (subst pop_back_loop.simps)
     (simp add: try_lock_def pop_back_critical_def occupied_def bitset_get_def
        bitset_reset_def unlock_def pop_back_loop_popped list_update_False_id)

lemma pop_back_loop_returns:
  assumes "pop_back_loop T0 p b v = Some r"
  shows "snd b \<or> (\<not> v_locks v ! nat p \<and> occupied v p)"
  by (rule pop_back_loop.raw_induct
        [where P = "\<lambda>T0 p b v r. snd b \<or> (\<not> v_locks v ! nat p \<and> occupied v p)", OF _ assms])
     (fastforce simp add: Let_def try_lock_def pop_back_critical_def occupied_def bitset_get_def
        split: if_splits prod.splits)

lemma pop_back_loop_spins:
  "v_locks v ! nat p \<or> \<not> occupied v p \<Longrightarrow> pop_back_loop T0 p (x, False) v = None"
  using pop_back_loop_returns [of T0 p "(x, False)" v]
  by (cases "pop_back_loop T0 p (x, False) v") auto

lemma push_back_loop_capacity:
  assumes "push_back_loop e p b v = Some r"
  shows "v_capacity (snd r) = v_capacity v"
  by (rule push_back_loop.raw_induct
        [where P = "\<lambda>e p b v r. v_capacity (snd r) = v_capacity v", OF _ assms])
     (auto simp add: Let_def push_back_critical_def bitset_set_def split: if_splits prod.splits)

lemma pop_back_loop_capacity:
  assumes "pop_back_loop T0 p b v = Some r"
  shows "v_capacity (snd r) = v_capacity v"
  by (rule pop_back_loop.raw_induct
        [where P = "\<lambda>T0 p b v r. v_capacity (snd r) = v_capacity v", OF _ assms])
     (auto simp add: Let_def pop_back_critical_def bitset_reset_def split: if_splits prod.splits)

subsection \<open>Round trip\<close>

lemma valid_not_full_position:
  assumes "allocated v" and "valid v" and "\<not> full v"
  shows "0 \<le> sint (v_size v) \<and> sint (v_size v) < v_capacity v \<and> size_vec v = sint (v_size v)"
proof -
  have cap: "0 \<le> v_capacity v" "v_capacity v \<le> 2147483647"
    using assms(1) by (simp_all add: allocated_def)
  have "v_capacity v \<noteq> 0"
    using assms(3)
    by (auto simp add: full_def max_size_def capacity_def size_vec_def atomic_load_def Let_def
        split: if_splits)
  then have "size_valid v"
    using assms(2) by (simp add: valid_def capacity_def)
  then have "0 \<le> sint (v_size v)"
    by (simp add: size_valid_def atomic_load_def word_sle_eq Let_def)
  then show ?thesis
    using assms(3)
    by (auto simp add: full_def max_size_def capacity_def size_vec_def atomic_load_def Let_def
        split: if_splits)
qed

lemma quiescent_slot:
  assumes "quiescent v" and "0 \<le> p" and "p < v_capacity v"
  shows "\<not> v_locks v ! nat p" and "occupied v p \<longleftrightarrow> p < sint (v_size v)"
    and "nat p < length (v_data v)" and "nat p < length (v_occupied v)"
proof -
  have len: "nat p < nat (v_capacity v)"
    using assms(2,3) by simp
  have alloc: "allocated v"
    using assms(1) by (simp add: quiescent_def)
  show "\<not> v_locks v ! nat p"
    using assms(1) len alloc
    by (simp add: quiescent_def allocated_def mutex_array_valid_def list_all_length)
  show "occupied v p \<longleftrightarrow> p < sint (v_size v)"
    using assms(1,2) len by (simp add: quiescent_def occupied_def bitset_get_def)
  show "nat p < length (v_data v)" "nat p < length (v_occupied v)"
    using alloc len by (simp_all add: allocated_def)
qed

lemma push_back_quiescent:
  assumes "quiescent v" and "valid v" and "\<not> full v"
  shows "push_back e v =
           Some (True, v\<lparr>v_size := v_size v + 1,
                         v_data := (v_data v)[nat (size_vec v) := e],
                         v_occupied := (v_occupied v)[nat (size_vec v) := True]\<rparr>)"
proof -
  have alloc: "allocated v"
    using assms(1) by (simp add: quiescent_def)
  note pos = valid_not_full_position [OF alloc assms(2,3)]
  let ?p = "sint (v_size v)"
  let ?v1 = "v\<lparr>v_size := v_size v + 1\<rparr>"
  have "\<not> v_locks ?v1 ! nat ?p" "\<not> occupied ?v1 ?p"
    using quiescent_slot(1,2) [OF assms(1), of ?p] pos by (simp_all add: occupied_def)
  then have "push_back_loop e ?p False ?v1 =
               Some (True, ?v1\<lparr>v_data := (v_data ?v1)[nat ?p := e],
                                v_occupied := (v_occupied ?v1)[nat ?p := True]\<rparr>)"
    by (rule push_back_loop_free)
  then show ?thesis
    using assms(3) pos
    by (simp add: push_back_def push_back_reserved_def atomic_post_increment_def)
qed

lemma pop_back_after_push_back:
  assumes "quiescent v" and "valid v" and "\<not> full v"
  shows "pop_back T0 (v\<lparr>v_size := v_size v + 1,
                         v_data := (v_data v)[nat (size_vec v) := e],
                         v_occupied := (v_occupied v)[nat (size_vec v) := True]\<rparr>) =
           Some ((e, True), v\<lparr>v_data := (v_data v)[nat (size_vec v) := T0]\<rparr>)"
proof -
  have alloc: "allocated v"
    using assms(1) by (simp add: quiescent_def)
  note pos = valid_not_full_position [OF alloc assms(2,3)]
  let ?p = "sint (v_size v)"
  let ?v1 = "v\<lparr>v_size := v_size v + 1, v_data := (v_data v)[nat ?p := e],
                v_occupied := (v_occupied v)[nat ?p := True]\<rparr>"
  let ?v2 = "?v1\<lparr>v_size := v_size v\<rparr>"
  have "v_capacity v \<le> 2147483647"
    using alloc by (simp add: allocated_def)
  then have succ: "sint (v_size v + 1) = ?p + 1"
    using pos by (simp add: sint_32_succ)
  then have nonempty: "\<not> empty_vec ?v1"
    using pos by (simp add: empty_vec_def size_vec_def atomic_load_def Let_def)
  note slot = quiescent_slot [OF assms(1), of ?p]
  have "\<not> v_locks ?v2 ! nat ?p" "occupied ?v2 ?p"
    using slot pos by (simp_all add: occupied_def bitset_get_def)
  then have "pop_back_loop T0 ?p (T0, False) ?v2 =
               Some ((v_data ?v2 ! nat ?p, True),
                     ?v2\<lparr>v_occupied := (v_occupied ?v2)[nat ?p := False],
                          v_data := (v_data ?v2)[nat ?p := T0]\<rparr>)"
    by (rule pop_back_loop_free)
  moreover have "(v_occupied v)[nat ?p := False] = v_occupied v"
    using slot pos by (simp add: occupied_def bitset_get_def list_update_False_id)
  ultimately show ?thesis
    using nonempty pos slot
    by (simp add: pop_back_def pop_back_reserved_def atomic_pre_decrement_def)
qed

text \<open>
  Claim C1: on a quiescent, valid, non-full vector, \<^verbatim>\<open>push_back(e)\<close> followed by
  \<^verbatim>\<open>pop_back()\<close> returns \<open>(e, true)\<close>; the slot that was used (the slot at the old size) is
  unoccupied afterwards and its storage holds \<^verbatim>\<open>T()\<close>, and \<^verbatim>\<open>size()\<close> is what it was
  before the push. Both calls return: neither spin loop runs forever.
\<close>

theorem push_back_pop_back_round_trip:
  assumes "quiescent v" and "valid v" and "\<not> full v"
  shows "let slot = size_vec v;
             v1 = v\<lparr>v_size := v_size v + 1,
                    v_data := (v_data v)[nat slot := e],
                    v_occupied := (v_occupied v)[nat slot := True]\<rparr>;
             v2 = v\<lparr>v_data := (v_data v)[nat slot := T0]\<rparr>
         in push_back e v = Some (True, v1)
            \<and> pop_back T0 v1 = Some ((e, True), v2)
            \<and> \<not> occupied v2 slot
            \<and> v_data v2 ! nat slot = T0
            \<and> size_vec v2 = size_vec v"
proof -
  have alloc: "allocated v"
    using assms(1) by (simp add: quiescent_def)
  note pos = valid_not_full_position [OF alloc assms(2,3)]
  note slot = quiescent_slot [OF assms(1), of "sint (v_size v)"]
  show ?thesis
    using push_back_quiescent [OF assms, of e] pop_back_after_push_back [OF assms, of T0 e]
      pos slot
    by (simp add: Let_def occupied_def bitset_get_def size_vec_def atomic_load_def)
qed

theorem push_back_pop_back_round_trip_witness:
  "quiescent one_of_two \<and> valid one_of_two \<and> \<not> full one_of_two \<and>
   push_back 7 one_of_two =
     Some (True, \<lparr>v_data = [5, 7], v_locks = [False, False], v_occupied = [True, True],
                  v_size = 2, v_capacity = 2\<rparr>) \<and>
   pop_back 0 \<lparr>v_data = [5, 7], v_locks = [False, False], v_occupied = [True, True],
               v_size = 2, v_capacity = 2\<rparr> = Some ((7, True), one_of_two) \<and>
   size_vec one_of_two = 1"
proof -
  have q: "quiescent one_of_two"
    by (simp add: quiescent_def allocated_def one_of_two_def mutex_array_valid_def upt_rec)
  have v: "valid one_of_two"
    by (simp add: valid_def capacity_def size_valid_def occupied_count_valid_def size_vec_def
        bitset_count_def atomic_load_def one_of_two_def mutex_array_valid_def word_sle_eq)
  have f: "\<not> full one_of_two"
    by (simp add: full_def max_size_def capacity_def size_vec_def atomic_load_def one_of_two_def)
  have s: "size_vec one_of_two = 1"
    by (simp add: size_vec_def atomic_load_def one_of_two_def)
  show ?thesis
    using q v f s push_back_pop_back_round_trip [OF q v f, of 7 0]
    by (simp add: Let_def one_of_two_def)
qed

subsection \<open>Preemptive checks\<close>

text \<open>
  Claim C4: when \<^verbatim>\<open>size()\<close> equals the capacity at entry, \<^verbatim>\<open>push_back(e)\<close> returns false
  and the state after the call is the state before it: counter, bitset and data are
  unchanged.
\<close>

theorem push_back_full:
  assumes "size_vec v = capacity v"
  shows "push_back e v = Some (False, v)"
  using assms by (simp add: push_back_def full_def max_size_def)

theorem push_back_full_witness:
  "size_vec two_of_two = capacity two_of_two \<and> push_back 9 two_of_two = Some (False, two_of_two)"
proof -
  have h: "size_vec two_of_two = capacity two_of_two"
    by (simp add: size_vec_def capacity_def atomic_load_def two_of_two_def)
  show ?thesis
    using h push_back_full [OF h, of 9] by simp
qed

text \<open>
  Claim C5: when \<^verbatim>\<open>size()\<close> equals 0 at entry, \<^verbatim>\<open>pop_back()\<close> returns \<open>(T(), false)\<close> and
  the state after the call is the state before it, so \<^verbatim>\<open>size()\<close> is still 0.
\<close>

theorem pop_back_empty:
  assumes "size_vec v = 0"
  shows "pop_back T0 v = Some ((T0, False), v)"
  using assms by (simp add: pop_back_def empty_vec_def)

theorem pop_back_empty_witness:
  "size_vec none_of_two = 0 \<and> pop_back 0 none_of_two = Some ((0, False), none_of_two)"
proof -
  have h: "size_vec none_of_two = 0"
    by (simp add: size_vec_def atomic_load_def none_of_two_def)
  show ?thesis
    using h pop_back_empty [OF h, of 0] by simp
qed

subsection \<open>size and valid\<close>

text \<open>
  Claim C6: for every raw value of the counter, \<^verbatim>\<open>size()\<close> is 0 when the value is
  negative, the capacity when the value is greater than the capacity, and the value itself
  otherwise; so the reported value lies between 0 and the capacity (of a vector whose
  capacity is not negative). \<^verbatim>\<open>size()\<close> is a \<^verbatim>\<open>const\<close> member that only loads the counter:
  it is a function of the state and returns no new state.
\<close>

theorem size_clamped:
  "size_vec v =
     (if sint (v_size v) < 0 then 0
      else if sint (v_size v) > capacity v then capacity v
      else sint (v_size v))
   \<and> (0 \<le> capacity v \<longrightarrow> 0 \<le> size_vec v \<and> size_vec v \<le> capacity v)"
  by (simp add: size_vec_def capacity_def atomic_load_def Let_def)

theorem size_clamped_witness:
  "0 \<le> capacity underflowed \<and> sint (v_size underflowed) = - 1 \<and> size_vec underflowed = 0"
  using size_clamped [of underflowed] by (simp add: capacity_def underflowed_def)

text \<open>
  Claim C9: \<^verbatim>\<open>valid()\<close> is true when the capacity is 0; otherwise it is true exactly when
  the raw counter lies in \<open>[0, capacity]\<close>, the population count of the bitset equals the
  clamped \<^verbatim>\<open>size()\<close>, and the lock array reports no lock held. The capacity is one that
  \<^verbatim>\<open>static_cast<int>\<close> in \<^verbatim>\<open>size_valid\<close> leaves unchanged.
\<close>

theorem valid_iff:
  assumes "- 2147483648 \<le> capacity v" and "capacity v \<le> 2147483647"
  shows "valid v \<longleftrightarrow>
           (capacity v = 0 \<or>
            (0 \<le> sint (v_size v) \<and> sint (v_size v) \<le> capacity v) \<and>
            bitset_count (v_occupied v) = size_vec v \<and>
            mutex_array_valid (v_locks v))"
  using assms
  by (auto simp add: valid_def size_valid_def occupied_count_valid_def capacity_def
      atomic_load_def Let_def word_sle_eq sint_32_of_int)

theorem valid_iff_witness:
  "- 2147483648 \<le> capacity one_of_two \<and> capacity one_of_two \<le> 2147483647 \<and>
   valid one_of_two \<and> \<not> valid underflowed"
  using valid_iff [of one_of_two] valid_iff [of underflowed]
  by (simp add: capacity_def size_vec_def atomic_load_def bitset_count_def
      mutex_array_valid_def one_of_two_def underflowed_def)

subsection \<open>The reserved position\<close>

lemma push_back_loop_size:
  assumes "push_back_loop e p b v = Some r"
  shows "v_size (snd r) = v_size v"
  by (rule push_back_loop.raw_induct
        [where P = "\<lambda>e p b v r. v_size (snd r) = v_size v", OF _ assms])
     (auto simp add: Let_def push_back_critical_def bitset_set_def split: if_splits prod.splits)

lemma pop_back_loop_size:
  assumes "pop_back_loop T0 p b v = Some r"
  shows "v_size (snd r) = v_size v"
  by (rule pop_back_loop.raw_induct
        [where P = "\<lambda>T0 p b v r. v_size (snd r) = v_size v", OF _ assms])
     (auto simp add: Let_def pop_back_critical_def bitset_reset_def split: if_splits prod.splits)

lemma not_empty_counter: "\<not> empty_vec v \<Longrightarrow> 0 \<le> sint (v_size v)"
  by (simp add: empty_vec_def size_vec_def atomic_load_def Let_def split: if_splits)

lemma pop_back_reserved_popped:
  assumes "pop_back_reserved T0 v = Some ((x, True), v')"
  shows "x = v_data v ! nat (sint (v_size v - 1)) \<and>
         v' = v\<lparr>v_size := v_size v - 1,
                 v_occupied := (v_occupied v)[nat (sint (v_size v - 1)) := False],
                 v_data := (v_data v)[nat (sint (v_size v - 1)) := T0]\<rparr>"
proof -
  let ?p = "sint (v_size v - 1)"
  let ?v1 = "v\<lparr>v_size := v_size v - 1\<rparr>"
  have loop: "pop_back_loop T0 ?p (T0, False) ?v1 = Some ((x, True), v')"
    using assms
    by (simp add: pop_back_reserved_def atomic_pre_decrement_def Let_def split: if_splits)
  from pop_back_loop_returns [OF loop]
  have "\<not> v_locks ?v1 ! nat ?p" "occupied ?v1 ?p"
    by simp_all
  from pop_back_loop_free [OF this, of T0 T0] loop show ?thesis
    by simp
qed

lemma pop_back_one_of_two:
  "pop_back 0 one_of_two = Some ((5, True), none_of_two)"
proof -
  let ?v1 = "one_of_two\<lparr>v_size := 0\<rparr>"
  have "\<not> v_locks ?v1 ! nat 0" "occupied ?v1 0"
    by (simp_all add: one_of_two_def occupied_def bitset_get_def)
  from pop_back_loop_free [OF this, of 0 0] show ?thesis
    by (simp add: pop_back_def pop_back_reserved_def empty_vec_def size_vec_def atomic_load_def
        atomic_pre_decrement_def one_of_two_def none_of_two_def)
qed

text \<open>
  Claim C2, as the code has it: after the preemptive \<^verbatim>\<open>empty()\<close> check has passed, the
  position reserved by \<^verbatim>\<open>--_size\<close> is the value of the counter after the decrement. If
  the counter held \<open>s\<close>, a call that returns leaves the counter at \<open>s - 1\<close>, and a call that
  pops an element reads it from slot \<open>s - 1\<close>, clears the occupancy bit of that slot and
  resets its storage.
\<close>

theorem pop_back_position:
  assumes "\<not> empty_vec v"
  shows "sint (pop_position v) = sint (v_size v) - 1
       \<and> (\<forall>r. pop_back T0 v = Some r \<longrightarrow> sint (v_size (snd r)) = sint (v_size v) - 1)
       \<and> (\<forall>x v'. pop_back T0 v = Some ((x, True), v') \<longrightarrow>
            x = v_data v ! nat (sint (v_size v) - 1) \<and>
            v_occupied v' = (v_occupied v)[nat (sint (v_size v) - 1) := False] \<and>
            v_data v' = (v_data v)[nat (sint (v_size v) - 1) := T0])"
proof -
  have pred: "sint (v_size v - 1) = sint (v_size v) - 1"
    using not_empty_counter [OF assms] by (simp add: sint_32_pred)
  have "sint (pop_position v) = sint (v_size v) - 1"
    using pred by (simp add: pop_position_def atomic_pre_decrement_def)
  moreover have "sint (v_size (snd r)) = sint (v_size v) - 1" if "pop_back T0 v = Some r" for r
    using that assms pred pop_back_loop_size [of T0 "sint (v_size v - 1)" "(T0, False)" "v\<lparr>v_size := v_size v - 1\<rparr>" r]
    by (auto simp add: pop_back_def pop_back_reserved_def atomic_pre_decrement_def Let_def
        split: if_splits)
  moreover have "x = v_data v ! nat (sint (v_size v) - 1) \<and>
            v_occupied v' = (v_occupied v)[nat (sint (v_size v) - 1) := False] \<and>
            v_data v' = (v_data v)[nat (sint (v_size v) - 1) := T0]"
    if "pop_back T0 v = Some ((x, True), v')" for x v'
    using that assms pred pop_back_reserved_popped [of T0 v x v']
    by (simp add: pop_back_def)
  ultimately show ?thesis
    by blast
qed

theorem pop_back_position_witness:
  "\<not> empty_vec one_of_two \<and> sint (v_size one_of_two) = 1 \<and> sint (pop_position one_of_two) = 0 \<and>
   pop_back 0 one_of_two = Some ((5, True), none_of_two) \<and> v_size none_of_two = 0"
proof -
  have h: "\<not> empty_vec one_of_two"
    by (simp add: empty_vec_def size_vec_def atomic_load_def one_of_two_def)
  have s: "sint (v_size one_of_two) = 1"
    by (simp add: one_of_two_def)
  show ?thesis
    using h s pop_back_position [OF h, of 0] pop_back_one_of_two
    by (simp add: none_of_two_def)
qed

text \<open>
  The claim as the spec words it (the popped slot index is the value \<open>s\<close> held before the
  decrement) fails: with one element in slot 0 and the counter at 1, the reserved position
  is 0, and \<^verbatim>\<open>pop_back\<close> returns the element of slot 0.
\<close>

theorem pop_back_position_counterexample:
  "\<not> empty_vec one_of_two \<and> v_size one_of_two = 1 \<and> pop_position one_of_two = 0 \<and>
   pop_position one_of_two \<noteq> v_size one_of_two \<and>
   pop_back 0 one_of_two =
     Some ((5, True), \<lparr>v_data = [0, 0], v_locks = [False, False], v_occupied = [False, False],
                       v_size = 0, v_capacity = 2\<rparr>)"
  using pop_back_one_of_two
  by (simp add: empty_vec_def size_vec_def atomic_load_def pop_position_def
      atomic_pre_decrement_def one_of_two_def none_of_two_def)

text \<open>
  Had the position been the value held before the decrement, the loop would wait on slot 1,
  which is unoccupied, and the call would never return.
\<close>

lemma pop_back_loop_at_old_size_spins:
  "pop_back_loop 0 (sint (v_size one_of_two)) (0, False) (one_of_two\<lparr>v_size := 0\<rparr>) = None"
  by (rule pop_back_loop_spins) (simp add: occupied_def bitset_get_def one_of_two_def)

lemma push_back_reserved_pushed:
  assumes "push_back_reserved e v = Some (True, v')"
  shows "v' = v\<lparr>v_size := v_size v + 1,
                 v_data := (v_data v)[nat (sint (v_size v)) := e],
                 v_occupied := (v_occupied v)[nat (sint (v_size v)) := True]\<rparr>"
proof -
  let ?p = "sint (v_size v)"
  let ?v1 = "v\<lparr>v_size := v_size v + 1\<rparr>"
  have loop: "push_back_loop e ?p False ?v1 = Some (True, v')"
    using assms
    by (simp add: push_back_reserved_def atomic_post_increment_def Let_def split: if_splits)
  from push_back_loop_returns [OF loop]
  have "\<not> v_locks ?v1 ! nat ?p" "\<not> occupied ?v1 ?p"
    by (simp_all add: occupied_def)
  from push_back_loop_free [OF this, of e] loop show ?thesis
    by simp
qed

text \<open>
  Claim C3: the position claimed by \<^verbatim>\<open>_size++\<close> is the value of the counter before the
  increment, and a push that succeeds writes that slot. After a passed \<^verbatim>\<open>full()\<close> check
  the call continues with the reservation. If the position lies outside \<open>[0, capacity)\<close>,
  the call returns false and the counter stays incremented; when the position is at or
  above the capacity (another thread has filled the vector since the check), the counter
  then exceeds the capacity.
\<close>

theorem push_back_position:
  "push_position v = v_size v
   \<and> (\<not> full v \<longrightarrow> push_back e v = push_back_reserved e v)
   \<and> (\<forall>v'. push_back_reserved e v = Some (True, v') \<longrightarrow>
         v' = v\<lparr>v_size := v_size v + 1,
                 v_data := (v_data v)[nat (sint (v_size v)) := e],
                 v_occupied := (v_occupied v)[nat (sint (v_size v)) := True]\<rparr>)
   \<and> (\<not> (0 \<le> sint (push_position v) \<and> sint (push_position v) < capacity v) \<longrightarrow>
         push_back_reserved e v = Some (False, v\<lparr>v_size := v_size v + 1\<rparr>))
   \<and> (capacity v \<le> sint (v_size v) \<and> sint (v_size v) < 2147483647 \<longrightarrow>
         push_back_reserved e v = Some (False, v\<lparr>v_size := v_size v + 1\<rparr>) \<and>
         capacity v < sint (v_size v + 1))"
  using push_back_reserved_pushed [of e v]
  by (auto simp add: push_position_def push_back_def push_back_reserved_def capacity_def
      atomic_post_increment_def Let_def sint_32_succ)

theorem push_back_position_witness:
  "\<not> full underflowed \<and> sint (push_position underflowed) = - 1 \<and>
   push_back 7 underflowed = Some (False, none_of_two) \<and>
   capacity two_of_two \<le> sint (v_size two_of_two) \<and>
   push_back_reserved 8 two_of_two = Some (False, two_of_two\<lparr>v_size := 3\<rparr>) \<and>
   capacity two_of_two < 3"
proof -
  have nf: "\<not> full underflowed"
    by (simp add: full_def max_size_def capacity_def size_vec_def atomic_load_def
        underflowed_def)
  have pos: "sint (push_position underflowed) = - 1"
    by (simp add: push_position_def atomic_post_increment_def underflowed_def)
  have out: "\<not> (0 \<le> sint (push_position underflowed) \<and>
                 sint (push_position underflowed) < capacity underflowed)"
    using pos by simp
  have "push_back 7 underflowed = Some (False, underflowed\<lparr>v_size := v_size underflowed + 1\<rparr>)"
    using push_back_position [of underflowed 7] nf out by simp
  moreover have "underflowed\<lparr>v_size := v_size underflowed + 1\<rparr> = none_of_two"
    by (simp add: underflowed_def none_of_two_def)
  ultimately have push: "push_back 7 underflowed = Some (False, none_of_two)"
    by simp
  have over: "capacity two_of_two \<le> sint (v_size two_of_two)"
      "sint (v_size two_of_two) < 2147483647"
    by (simp_all add: capacity_def two_of_two_def)
  have "push_back_reserved 8 two_of_two =
          Some (False, two_of_two\<lparr>v_size := v_size two_of_two + 1\<rparr>)"
    using push_back_position [of two_of_two 8] over by simp
  moreover have "v_size two_of_two + 1 = 3" "capacity two_of_two < 3"
    by (simp_all add: capacity_def two_of_two_def)
  ultimately show ?thesis
    using nf pos push over(1) by simp
qed

subsection \<open>empty, full, max_size and capacity\<close>

lemma replicate_two: "replicate 2 x = [x, x]"
  by (simp add: numeral_2_eq_2)

lemma createDeviceObject_two: "createDeviceObject 0 2 = Some none_of_two"
  by (simp add: createDeviceObject_def createDeviceArray_def mutex_array_createDeviceObject_def
      bitset_createDeviceObject_def atomic_createDeviceObject_def replicate_two
      none_of_two_def)

text \<open>
  Claim C8: \<^verbatim>\<open>empty()\<close> is true exactly when the clamped \<^verbatim>\<open>size()\<close> is 0, \<^verbatim>\<open>full()\<close>
  exactly when it equals \<^verbatim>\<open>max_size()\<close>, and \<^verbatim>\<open>max_size()\<close> equals \<^verbatim>\<open>capacity()\<close>. The
  capacity is the size the vector was created with, and \<^verbatim>\<open>push_back\<close>, \<^verbatim>\<open>pop_back\<close> and
  \<^verbatim>\<open>clear\<close> leave it unchanged (\<^verbatim>\<open>destroyDeviceObject\<close>, which ends the life of the
  vector, sets it to 0).
\<close>

theorem capacity_fixed:
  "empty_vec v = (size_vec v = 0)
   \<and> full v = (size_vec v = max_size v)
   \<and> max_size v = capacity v
   \<and> (\<forall>n v0. createDeviceObject T0 n = Some v0 \<longrightarrow> capacity v0 = n)
   \<and> (\<forall>r. push_back e v = Some r \<longrightarrow> capacity (snd r) = capacity v)
   \<and> (\<forall>r. pop_back T0 v = Some r \<longrightarrow> capacity (snd r) = capacity v)
   \<and> capacity (clear T0 v) = capacity v"
proof -
  have "capacity (snd r) = capacity v" if "push_back e v = Some r" for r
    using that push_back_loop_capacity [of e "sint (v_size v)" False "v\<lparr>v_size := v_size v + 1\<rparr>" r]
    by (auto simp add: push_back_def push_back_reserved_def atomic_post_increment_def
        capacity_def Let_def split: if_splits)
  moreover have "capacity (snd r) = capacity v" if "pop_back T0 v = Some r" for r
    using that pop_back_loop_capacity [of T0 "sint (v_size v - 1)" "(T0, False)" "v\<lparr>v_size := v_size v - 1\<rparr>" r]
    by (auto simp add: pop_back_def pop_back_reserved_def atomic_pre_decrement_def
        capacity_def Let_def split: if_splits)
  moreover have "capacity (clear T0 v) = capacity v"
    by (simp add: clear_def capacity_def Let_def)
  moreover have "capacity v0 = n" if "createDeviceObject T0 n = Some v0" for n v0
    using that by (auto simp add: createDeviceObject_def capacity_def split: if_splits)
  ultimately show ?thesis
    by (simp add: empty_vec_def full_def max_size_def)
qed

theorem capacity_fixed_witness:
  "createDeviceObject 0 2 = Some none_of_two \<and> capacity none_of_two = 2 \<and>
   pop_back 0 one_of_two = Some ((5, True), none_of_two) \<and> capacity one_of_two = 2"
proof -
  have "capacity one_of_two = 2"
    by (simp add: capacity_def one_of_two_def)
  then show ?thesis
    using capacity_fixed [of one_of_two 0 7] pop_back_one_of_two createDeviceObject_two
    by simp
qed

subsection \<open>clear\<close>

lemma bitset_count_all_false: "bitset_count (replicate n False) = 0"
  by (simp add: bitset_count_def)

lemma fill_prefix_nth:
  assumes "i < nat n" and "nat n \<le> length xs"
  shows "fill_prefix xs n x ! i = x"
  using assms by (simp add: fill_prefix_def nth_append)

lemma fill_prefix_length: "length (fill_prefix xs n x) = length xs"
  by (simp add: fill_prefix_def)

lemma clear_not_empty:
  assumes "\<not> empty_vec v"
  shows "clear T0 v = v\<lparr>v_data := fill_prefix (v_data v) (size_vec v) T0,
                         v_occupied := replicate (length (v_occupied v)) False,
                         v_size := 0\<rparr>"
  using assms by (simp add: clear_def Let_def bitset_reset_all_def atomic_store_def)

text \<open>
  Claim C7, as the code has it: \<^verbatim>\<open>clear()\<close> returns at once when \<^verbatim>\<open>empty()\<close> holds and never
  touches the lock array. On an allocated vector with no lock held and \<^verbatim>\<open>size() > 0\<close> at
  entry, after \<^verbatim>\<open>clear()\<close> the first \<^verbatim>\<open>size()\<close>-many data slots hold \<^verbatim>\<open>T()\<close>, the bitset is
  all-false, the counter holds 0, and \<^verbatim>\<open>valid()\<close> and \<^verbatim>\<open>empty()\<close> hold.
\<close>

theorem clear_postcondition:
  assumes "allocated v" and "mutex_array_valid (v_locks v)" and "\<not> empty_vec v"
  shows "(\<forall>i. 0 \<le> i \<and> i < size_vec v \<longrightarrow> v_data (clear T0 v) ! nat i = T0)
       \<and> v_occupied (clear T0 v) = replicate (nat (capacity v)) False
       \<and> v_size (clear T0 v) = 0
       \<and> valid (clear T0 v)
       \<and> empty_vec (clear T0 v)"
proof -
  have cap: "0 \<le> v_capacity v" "v_capacity v \<le> 2147483647"
    and len: "length (v_data v) = nat (v_capacity v)" "length (v_occupied v) = nat (v_capacity v)"
    using assms(1) by (simp_all add: allocated_def)
  have size_le: "size_vec v \<le> v_capacity v"
    using cap by (simp add: size_vec_def Let_def)
  note c = clear_not_empty [OF assms(3), of T0]
  have "v_data (clear T0 v) ! nat i = T0" if "0 \<le> i \<and> i < size_vec v" for i
    using that size_le len by (simp add: c fill_prefix_nth)
  moreover have "v_occupied (clear T0 v) = replicate (nat (capacity v)) False"
    using len by (simp add: c capacity_def)
  moreover have "v_size (clear T0 v) = 0"
    by (simp add: c)
  moreover have empty: "size_vec (clear T0 v) = 0"
    using cap by (simp add: c size_vec_def atomic_load_def)
  moreover have "valid (clear T0 v)"
    using cap assms(2) empty
    by (simp add: valid_def capacity_def size_valid_def occupied_count_valid_def
        atomic_load_def word_sle_eq sint_32_of_int bitset_count_all_false c)
  ultimately show ?thesis
    by (simp add: empty_vec_def)
qed

theorem clear_postcondition_witness:
  "allocated one_of_two \<and> mutex_array_valid (v_locks one_of_two) \<and> \<not> empty_vec one_of_two \<and>
   clear 0 one_of_two = none_of_two \<and> valid none_of_two \<and> empty_vec none_of_two"
proof -
  have a: "allocated one_of_two"
    by (simp add: allocated_def one_of_two_def)
  have l: "mutex_array_valid (v_locks one_of_two)"
    by (simp add: mutex_array_valid_def one_of_two_def)
  have e: "\<not> empty_vec one_of_two"
    by (simp add: empty_vec_def size_vec_def atomic_load_def one_of_two_def)
  have c: "clear 0 one_of_two = none_of_two"
    by (simp add: clear_def empty_vec_def size_vec_def atomic_load_def atomic_store_def
        bitset_reset_all_def fill_prefix_def one_of_two_def none_of_two_def)
  show ?thesis
    using a l e c clear_postcondition [OF a l e, of 0] by simp
qed

text \<open>
  The claim for every vector state fails. With the counter at -1, \<^verbatim>\<open>empty()\<close> holds (the
  clamped size is 0), \<^verbatim>\<open>clear()\<close> returns without storing 0, and \<^verbatim>\<open>valid()\<close> is false
  afterwards. With a lock held, \<^verbatim>\<open>clear()\<close> resets data, bitset and counter, the lock stays
  held and \<^verbatim>\<open>valid()\<close> is false afterwards.
\<close>

theorem clear_postcondition_counterexample:
  "empty_vec underflowed \<and> clear 0 underflowed = underflowed \<and>
   v_size (clear 0 underflowed) \<noteq> 0 \<and> \<not> valid (clear 0 underflowed) \<and>
   \<not> valid (clear 0 (one_of_two\<lparr>v_locks := [False, True]\<rparr>))"
proof -
  have e: "empty_vec underflowed"
    by (simp add: empty_vec_def size_vec_def atomic_load_def underflowed_def)
  then have c: "clear 0 underflowed = underflowed"
    by (simp add: clear_def)
  have "v_size underflowed \<noteq> 0"
    by (simp add: underflowed_def)
  moreover have "\<not> valid underflowed"
    by (simp add: valid_def capacity_def size_valid_def atomic_load_def word_sle_eq
        underflowed_def)
  moreover have "\<not> valid (clear 0 (one_of_two\<lparr>v_locks := [False, True]\<rparr>))"
    by (simp add: valid_def capacity_def clear_def empty_vec_def size_vec_def atomic_load_def
        mutex_array_valid_def one_of_two_def)
  ultimately show ?thesis
    using e c by simp
qed

subsection \<open>Creation\<close>

text \<open>
  Claim C10: \<^verbatim>\<open>createDeviceObject(size)\<close> has a result exactly when \<open>size > 0\<close>. The vector it
  returns has the requested capacity, the counter at 0, every occupancy bit false, every
  data slot equal to \<^verbatim>\<open>T()\<close> and no lock held; it is quiescent, and \<^verbatim>\<open>valid()\<close> holds (for
  a size that \<^verbatim>\<open>static_cast<int>\<close> in \<^verbatim>\<open>size_valid\<close> leaves unchanged).
\<close>

theorem createDeviceObject_fresh:
  "(createDeviceObject T0 n = None \<longleftrightarrow> \<not> 0 < n)
   \<and> (0 < n \<longrightarrow>
        (\<exists>v. createDeviceObject T0 n = Some v
           \<and> capacity v = n
           \<and> v_size v = 0 \<and> size_vec v = 0
           \<and> v_occupied v = replicate (nat n) False
           \<and> v_data v = replicate (nat n) T0
           \<and> v_locks v = replicate (nat n) False
           \<and> mutex_array_valid (v_locks v)
           \<and> (n \<le> 2147483647 \<longrightarrow> quiescent v \<and> valid v)))"
proof (cases "0 < n")
  case False
  then show ?thesis
    by (simp add: createDeviceObject_def)
next
  case True
  let ?v = "\<lparr> v_data = replicate (nat n) T0, v_locks = replicate (nat n) False,
              v_occupied = replicate (nat n) False, v_size = 0, v_capacity = n \<rparr>"
  have create: "createDeviceObject T0 n = Some ?v"
    using True
    by (simp add: createDeviceObject_def createDeviceArray_def
        mutex_array_createDeviceObject_def bitset_createDeviceObject_def
        atomic_createDeviceObject_def)
  have locks: "mutex_array_valid (v_locks ?v)"
    by (simp add: mutex_array_valid_def list_all_length)
  have size0: "size_vec ?v = 0"
    using True by (simp add: size_vec_def atomic_load_def)
  have "quiescent ?v \<and> valid ?v" if "n \<le> 2147483647"
  proof
    have "replicate (nat n) False = map (\<lambda>i. int i < 0) [0..<nat n]"
      by (simp add: map_replicate_trivial)
    then show "quiescent ?v"
      using True that locks by (simp add: quiescent_def allocated_def)
    show "valid ?v"
      using True that locks size0
      by (simp add: valid_def capacity_def size_valid_def occupied_count_valid_def
          atomic_load_def word_sle_eq sint_32_of_int bitset_count_all_false)
  qed
  then show ?thesis
    using True create locks size0 by (simp add: capacity_def)
qed

theorem createDeviceObject_fresh_witness:
  "createDeviceObject (0::int) 0 = None \<and> createDeviceObject 0 2 = Some none_of_two \<and>
   quiescent none_of_two \<and> valid none_of_two"
  using createDeviceObject_fresh [of "0::int" 0] createDeviceObject_fresh [of "0::int" 2]
    createDeviceObject_two
  by simp

subsection \<open>Sequential use keeps the vector quiescent and valid\<close>

text \<open>
  A vector that is created and then used by one call at a time is quiescent and valid
  before and after every call, and every call returns. The hypotheses of the round trip
  are therefore met in every state of such a run.
\<close>

lemma count_below: "length (filter (\<lambda>b. b) (map (\<lambda>i. int i < k) [0..<n])) = nat (min k (int n))"
  by (induction n) auto

lemma quiescent_count:
  assumes "quiescent v" and "0 \<le> sint (v_size v)" and "sint (v_size v) \<le> v_capacity v"
  shows "bitset_count (v_occupied v) = sint (v_size v)"
proof -
  have "v_occupied v = map (\<lambda>i. int i < sint (v_size v)) [0..<nat (v_capacity v)]"
    using assms(1) by (simp add: quiescent_def)
  then have "bitset_count (v_occupied v) = int (nat (min (sint (v_size v)) (int (nat (v_capacity v)))))"
    unfolding bitset_count_def by (simp only: count_below)
  then show ?thesis
    using assms(2,3) by simp
qed

lemma quiescent_valid_iff:
  assumes "quiescent v"
  shows "valid v \<longleftrightarrow> v_capacity v = 0 \<or> (0 \<le> sint (v_size v) \<and> sint (v_size v) \<le> v_capacity v)"
proof (cases "0 \<le> sint (v_size v) \<and> sint (v_size v) \<le> v_capacity v")
  case True
  have "- 2147483648 \<le> v_capacity v" "v_capacity v < 2147483648" "mutex_array_valid (v_locks v)"
    using assms by (simp_all add: quiescent_def allocated_def)
  then show ?thesis
    using True quiescent_count [OF assms]
    by (simp add: valid_def capacity_def size_valid_def occupied_count_valid_def size_vec_def
        atomic_load_def word_sle_eq sint_32_of_int)
next
  case False
  have "- 2147483648 \<le> v_capacity v" "v_capacity v < 2147483648"
    using assms by (simp_all add: quiescent_def allocated_def)
  then show ?thesis
    using False
    by (auto simp add: valid_def capacity_def size_valid_def atomic_load_def word_sle_eq
        sint_32_of_int)
qed

lemma occupied_prefix_grow:
  assumes "0 \<le> s" and "nat s < n"
  shows "(map (\<lambda>i. int i < s) [0..<n])[nat s := True] = map (\<lambda>i. int i < s + 1) [0..<n]"
  using assms by (auto simp add: list_eq_iff_nth_eq nth_list_update)

lemma occupied_prefix_shrink:
  assumes "0 < s" and "nat (s - 1) < n"
  shows "(map (\<lambda>i. int i < s) [0..<n])[nat (s - 1) := False] = map (\<lambda>i. int i < s - 1) [0..<n]"
proof (rule nth_equalityI)
  show "length ((map (\<lambda>i. int i < s) [0..<n])[nat (s - 1) := False]) =
        length (map (\<lambda>i. int i < s - 1) [0..<n])"
    by simp
next
  fix i
  assume "i < length ((map (\<lambda>i. int i < s) [0..<n])[nat (s - 1) := False])"
  then have "i < n"
    by simp
  then show "(map (\<lambda>i. int i < s) [0..<n])[nat (s - 1) := False] ! i =
             map (\<lambda>i. int i < s - 1) [0..<n] ! i"
    using assms by (cases "i = nat (s - 1)") (auto simp add: nth_list_update)
qed

lemma push_back_keeps_invariant:
  assumes "quiescent v" and "valid v"
  shows "\<exists>v'. push_back e v = Some (\<not> full v, v') \<and> quiescent v' \<and> valid v'"
proof (cases "full v")
  case True
  then show ?thesis
    using assms by (simp add: push_back_def)
next
  case False
  have alloc: "allocated v"
    using assms(1) by (simp add: quiescent_def)
  note pos = valid_not_full_position [OF alloc assms(2) False]
  let ?s = "sint (v_size v)"
  let ?v' = "v\<lparr>v_size := v_size v + 1, v_data := (v_data v)[nat ?s := e],
               v_occupied := (v_occupied v)[nat ?s := True]\<rparr>"
  have succ: "sint (v_size v + 1) = ?s + 1"
    using alloc pos by (simp add: allocated_def sint_32_succ)
  have q: "quiescent ?v'"
    using assms(1) pos succ occupied_prefix_grow [of ?s "nat (v_capacity v)"]
    by (simp add: quiescent_def allocated_def)
  then have "valid ?v'"
    using pos succ by (simp add: quiescent_valid_iff)
  then show ?thesis
    using False q pos push_back_quiescent [OF assms False, of e] by simp
qed

lemma pop_back_keeps_invariant:
  assumes "quiescent v" and "valid v"
  shows "\<exists>x v'. pop_back T0 v = Some ((x, \<not> empty_vec v), v') \<and> quiescent v' \<and> valid v'"
proof (cases "empty_vec v")
  case True
  then show ?thesis
    using assms by (simp add: pop_back_def)
next
  case False
  let ?s = "sint (v_size v)"
  let ?p = "sint (v_size v - 1)"
  let ?v1 = "v\<lparr>v_size := v_size v - 1\<rparr>"
  let ?v' = "?v1\<lparr>v_occupied := (v_occupied ?v1)[nat ?p := False],
                 v_data := (v_data ?v1)[nat ?p := T0]\<rparr>"
  have alloc: "allocated v"
    using assms(1) by (simp add: quiescent_def)
  have nonneg: "0 \<le> ?s"
    using False by (rule not_empty_counter)
  have cap0: "v_capacity v \<noteq> 0"
    using False nonneg
    by (auto simp add: empty_vec_def size_vec_def atomic_load_def Let_def split: if_splits)
  then have range: "0 < ?s" "?s \<le> v_capacity v"
    using assms False
    by (auto simp add: quiescent_valid_iff empty_vec_def size_vec_def atomic_load_def)
  have pred: "?p = ?s - 1"
    using nonneg by (simp add: sint_32_pred)
  have slot: "\<not> v_locks ?v1 ! nat ?p" "occupied ?v1 ?p"
    using quiescent_slot(1,2) [OF assms(1), of ?p] range pred by (simp_all add: occupied_def)
  have loop: "pop_back_loop T0 ?p (T0, False) ?v1 = Some ((v_data ?v1 ! nat ?p, True), ?v')"
    using slot by (rule pop_back_loop_free)
  have q: "quiescent ?v'"
    using assms(1) range pred occupied_prefix_shrink [of ?s "nat (v_capacity v)"]
    by (simp add: quiescent_def allocated_def)
  then have "valid ?v'"
    using range pred by (simp add: quiescent_valid_iff)
  then show ?thesis
    using False q loop range pred
    by (simp add: pop_back_def pop_back_reserved_def atomic_pre_decrement_def)
qed

lemma clear_keeps_invariant:
  assumes "quiescent v" and "valid v"
  shows "quiescent (clear T0 v) \<and> valid (clear T0 v) \<and> empty_vec (clear T0 v)"
proof (cases "empty_vec v")
  case True
  then show ?thesis
    using assms by (simp add: clear_def)
next
  case False
  let ?v' = "v\<lparr>v_data := fill_prefix (v_data v) (size_vec v) T0,
               v_occupied := replicate (length (v_occupied v)) False, v_size := 0\<rparr>"
  have c: "clear T0 v = ?v'"
    using False by (rule clear_not_empty)
  have q: "quiescent ?v'"
    using assms(1)
    by (simp add: quiescent_def allocated_def fill_prefix_length map_replicate_trivial)
  moreover have "0 \<le> v_capacity v"
    using assms(1) by (simp add: quiescent_def allocated_def)
  ultimately show ?thesis
    by (simp add: c quiescent_valid_iff empty_vec_def size_vec_def atomic_load_def)
qed

lemma createDeviceObject_keeps_invariant:
  assumes "createDeviceObject T0 n = Some v" and "n \<le> 2147483647"
  shows "quiescent v \<and> valid v"
proof -
  have pos: "0 < n"
    using assms(1) by (simp add: createDeviceObject_def split: if_splits)
  then have v: "v = \<lparr> v_data = replicate (nat n) T0, v_locks = replicate (nat n) False,
                       v_occupied = replicate (nat n) False, v_size = 0, v_capacity = n \<rparr>"
    using assms(1)
    by (simp add: createDeviceObject_def createDeviceArray_def
        mutex_array_createDeviceObject_def bitset_createDeviceObject_def
        atomic_createDeviceObject_def)
  have "quiescent v"
    using pos assms(2)
    by (simp add: v quiescent_def allocated_def mutex_array_valid_def list_all_length
        map_replicate_trivial)
  moreover from this have "valid v"
    using pos by (simp add: quiescent_valid_iff) (simp add: v)
  ultimately show ?thesis
    by simp
qed

text \<open>
  \<^verbatim>\<open>valid()\<close> alone does not make \<^verbatim>\<open>push_back\<close> return: it counts the occupied slots and
  does not say which they are. With the counter at 1 and the element in slot 1, the vector
  is valid and not full, and \<^verbatim>\<open>push_back\<close> spins on slot 1 forever.
\<close>

lemma valid_alone_does_not_return:
  "valid \<lparr>v_data = [0, 5::int], v_locks = [False, False], v_occupied = [False, True],
          v_size = 1, v_capacity = 2\<rparr> \<and>
   \<not> full \<lparr>v_data = [0, 5::int], v_locks = [False, False], v_occupied = [False, True],
          v_size = 1, v_capacity = 2\<rparr> \<and>
   push_back 7 \<lparr>v_data = [0, 5::int], v_locks = [False, False], v_occupied = [False, True],
          v_size = 1, v_capacity = 2\<rparr> = None"
proof -
  let ?v = "\<lparr>v_data = [0, 5::int], v_locks = [False, False], v_occupied = [False, True],
          v_size = 1, v_capacity = 2\<rparr>"
  have "push_back_loop 7 1 False (?v\<lparr>v_size := 2\<rparr>) = None"
    by (rule push_back_loop_spins) (simp add: occupied_def bitset_get_def)
  then show ?thesis
    by (simp add: valid_def capacity_def size_valid_def occupied_count_valid_def size_vec_def
        bitset_count_def atomic_load_def mutex_array_valid_def word_sle_eq full_def
        max_size_def push_back_def push_back_reserved_def atomic_post_increment_def)
qed

end
